theory Spec2Isabelle
  imports Complex_Main "HOL-Library.Log_Nat"
begin

section \<open>Characters and strings\<close>

text \<open>
  The evaluator (\<^verbatim>\<open>src/code/evaluator.py\<close>) works on Python \<^verbatim>\<open>str\<close> values. A string is
  modelled as a list of 8-bit characters, read as the code points U+0000 to U+00FF (the
  degree sign of the unit pattern is U+00B0). On this range Python's classifications are:
  \<^item> \<^verbatim>\<open>str.isspace\<close>, which is also the class \<^verbatim>\<open>\s\<close> of \<^verbatim>\<open>re\<close> and the separator set of
    \<^verbatim>\<open>str.strip()\<close> and \<^verbatim>\<open>str.split()\<close>: 09-0D, 1C-1F, 20, 85 and A0;
  \<^item> \<^verbatim>\<open>\d\<close> and the digits of \<^verbatim>\<open>float()\<close> and \<^verbatim>\<open>int()\<close>: the ten ASCII digits;
  \<^item> \<^verbatim>\<open>str.lower()\<close>: A-Z and C0-DE without D7 move up by 0x20.
\<close>

definition is_space :: "char \<Rightarrow> bool" where
  "is_space c \<longleftrightarrow> c \<in> set [CHR 0x09, CHR 0x0A, CHR 0x0B, CHR 0x0C, CHR 0x0D,
     CHR 0x1C, CHR 0x1D, CHR 0x1E, CHR 0x1F, CHR 0x20, CHR 0x85, CHR 0xA0]"

definition is_digit :: "char \<Rightarrow> bool" where
  "is_digit c \<longleftrightarrow> 48 \<le> (of_char c :: nat) \<and> (of_char c :: nat) \<le> 57"

definition upper_chars :: string where
  "upper_chars = ''ABCDEFGHIJKLMNOPQRSTUVWXYZ'' @
     [CHR 0xC0, CHR 0xC1, CHR 0xC2, CHR 0xC3, CHR 0xC4, CHR 0xC5, CHR 0xC6, CHR 0xC7,
      CHR 0xC8, CHR 0xC9, CHR 0xCA, CHR 0xCB, CHR 0xCC, CHR 0xCD, CHR 0xCE, CHR 0xCF,
      CHR 0xD0, CHR 0xD1, CHR 0xD2, CHR 0xD3, CHR 0xD4, CHR 0xD5, CHR 0xD6,
      CHR 0xD8, CHR 0xD9, CHR 0xDA, CHR 0xDB, CHR 0xDC, CHR 0xDD, CHR 0xDE]"

definition lower_chars :: string where
  "lower_chars = ''abcdefghijklmnopqrstuvwxyz'' @
     [CHR 0xE0, CHR 0xE1, CHR 0xE2, CHR 0xE3, CHR 0xE4, CHR 0xE5, CHR 0xE6, CHR 0xE7,
      CHR 0xE8, CHR 0xE9, CHR 0xEA, CHR 0xEB, CHR 0xEC, CHR 0xED, CHR 0xEE, CHR 0xEF,
      CHR 0xF0, CHR 0xF1, CHR 0xF2, CHR 0xF3, CHR 0xF4, CHR 0xF5, CHR 0xF6,
      CHR 0xF8, CHR 0xF9, CHR 0xFA, CHR 0xFB, CHR 0xFC, CHR 0xFD, CHR 0xFE]"

definition lower_char :: "char \<Rightarrow> char" where
  "lower_char c = (case map_of (zip upper_chars lower_chars) c of Some l \<Rightarrow> l | None \<Rightarrow> c)"

text \<open>\<^verbatim>\<open>str.lower()\<close>\<close>

definition lower :: "string \<Rightarrow> string" where
  "lower s = map lower_char s"

text \<open>\<^verbatim>\<open>str.strip()\<close> and \<^verbatim>\<open>str.rstrip()\<close> without argument\<close>

definition rstrip_ws :: "string \<Rightarrow> string" where
  "rstrip_ws s = rev (dropWhile is_space (rev s))"

definition strip :: "string \<Rightarrow> string" where
  "strip s = rstrip_ws (dropWhile is_space s)"

text \<open>\<^verbatim>\<open>s.rstrip(c)\<close> for a one-character argument\<close>

definition rstrip_char :: "char \<Rightarrow> string \<Rightarrow> string" where
  "rstrip_char c s = rev (dropWhile (\<lambda>x. x = c) (rev s))"

text \<open>
  \<^verbatim>\<open>str.split()\<close> without argument: the maximal runs of non-whitespace characters. The
  second argument of \<open>split_acc\<close> is the word being read.
\<close>

fun split_acc :: "string \<Rightarrow> string \<Rightarrow> string list" where
  "split_acc [] w = (if w = [] then [] else [w])"
| "split_acc (c # cs) w =
     (if is_space c then (if w = [] then split_acc cs [] else w # split_acc cs [])
      else split_acc cs (w @ [c]))"

definition split :: "string \<Rightarrow> string list" where
  "split s = split_acc s []"

text \<open>\<^verbatim>\<open>' '.join(words)\<close>\<close>

fun join_space :: "string list \<Rightarrow> string" where
  "join_space [] = []"
| "join_space [w] = w"
| "join_space (w # ws) = w @ CHR '' '' # join_space ws"

section \<open>The regular expressions of the normalizer\<close>

text \<open>
  \<^verbatim>\<open>re.sub(r'^\$', '', answer)\<close>: without \<^verbatim>\<open>re.MULTILINE\<close> the anchor matches at position 0
  only, so at most one dollar sign is removed.
\<close>

definition sub_dollar :: "string \<Rightarrow> string" where
  "sub_dollar s = (case s of [] \<Rightarrow> [] | c # r \<Rightarrow> if c = CHR ''$'' then r else s)"

text \<open>
  \<^verbatim>\<open>re.sub(r'^USD\s*', '', answer, flags=re.IGNORECASE)\<close>: a leading \<^verbatim>\<open>usd\<close> in any case
  and the whitespace after it (greedy).
\<close>

definition sub_usd :: "string \<Rightarrow> string" where
  "sub_usd s = (if 3 \<le> length s \<and> lower (take 3 s) = ''usd''
                then dropWhile is_space (drop 3 s) else s)"

text \<open>
  \<^verbatim>\<open>re.sub(r'\s*(dollars?|USD|units?)$', '', answer, flags=re.IGNORECASE)\<close>. A match is a
  whitespace run followed by one of the words, ending where \<^verbatim>\<open>$\<close> matches: at the end of
  the string, or just before a newline that is the last character. The words end in
  different letters or have different lengths of the same spelling, so at most one of them
  is a suffix; the leftmost match starts at the beginning of the whitespace run before
  it. After that match no further match exists, so \<^verbatim>\<open>sub\<close> replaces once.
\<close>

definition ends_ci :: "string \<Rightarrow> string \<Rightarrow> bool" where
  "ends_ci s w \<longleftrightarrow> length w \<le> length s \<and> lower (drop (length s - length w) s) = w"

definition strip_word :: "string \<Rightarrow> string" where
  "strip_word s =
     (case find (ends_ci s) [''dollars'', ''dollar'', ''usd'', ''units'', ''unit''] of
        Some w \<Rightarrow> rstrip_ws (take (length s - length w) s)
      | None \<Rightarrow> s)"

definition sub_suffix :: "string \<Rightarrow> string" where
  "sub_suffix s =
     (if s \<noteq> [] \<and> last s = CHR 0x0A then strip_word (butlast s) @ [CHR 0x0A]
      else strip_word s)"

text \<open>Lines 16 to 26 of \<^verbatim>\<open>normalize_answer\<close>: the steps applied to every non-empty answer.\<close>

definition clean_answer :: "string \<Rightarrow> string" where
  "clean_answer answer = join_space (split (sub_suffix (sub_usd (sub_dollar (strip answer)))))"

subsection \<open>The number-and-unit pattern\<close>

text \<open>
  \<^verbatim>\<open>([\d.]+)\s*(mm|cm|m|km|kg|g|mg|s|ms|rad/s\^?2?|m/s\^?2?|m/s|N|J|W|Hz|\<degree>|degrees?)?\<close>
  with \<^verbatim>\<open>re.IGNORECASE\<close>, used through \<^verbatim>\<open>re.search\<close>. An alternative is a sequence of
  characters, some of them optional (\<^verbatim>\<open>\^?\<close>, \<^verbatim>\<open>2?\<close>, \<^verbatim>\<open>s?\<close>); \<open>match_pat\<close> matches one at the
  start of a string, greedily and with backtracking, and returns the matched text.
  The alternatives are tried in the order of the pattern and the first that matches is
  taken, since nothing follows the group.
\<close>

type_synonym pat = "(char \<times> bool) list"

definition req :: "string \<Rightarrow> pat" where
  "req s = map (\<lambda>c. (c, False)) s"

definition opt :: "string \<Rightarrow> pat" where
  "opt s = map (\<lambda>c. (c, True)) s"

fun match_pat :: "pat \<Rightarrow> string \<Rightarrow> string option" where
  "match_pat [] s = Some []"
| "match_pat ((p, optional) # ps) s =
     (case (case s of [] \<Rightarrow> None
            | c # cs \<Rightarrow> if lower_char c = lower_char p
                        then map_option ((#) c) (match_pat ps cs) else None) of
        Some r \<Rightarrow> Some r
      | None \<Rightarrow> if optional then match_pat ps s else None)"

fun match_alts :: "pat list \<Rightarrow> string \<Rightarrow> string option" where
  "match_alts [] s = None"
| "match_alts (p # ps) s =
     (case match_pat p s of Some u \<Rightarrow> Some u | None \<Rightarrow> match_alts ps s)"

text \<open>The alternatives of the pattern in \<^verbatim>\<open>normalize_answer\<close> (line 31).\<close>

definition normalize_units :: "pat list" where
  "normalize_units =
     [req ''mm'', req ''cm'', req ''m'', req ''km'', req ''kg'', req ''g'', req ''mg'',
      req ''s'', req ''ms'', req ''rad/s'' @ opt ''^2'', req ''m/s'' @ opt ''^2'',
      req ''m/s'', req ''N'', req ''J'', req ''W'', req ''Hz'', req [CHR 0xB0],
      req ''degree'' @ opt ''s'']"

text \<open>The pattern in \<^verbatim>\<open>extract_number_and_unit\<close> (line 90) repeats \<^verbatim>\<open>cm\<close> and \<^verbatim>\<open>mm\<close> at the end.\<close>

definition extract_units :: "pat list" where
  "extract_units = normalize_units @ [req ''cm'', req ''mm'']"

definition num_char :: "char \<Rightarrow> bool" where
  "num_char c \<longleftrightarrow> is_digit c \<or> c = CHR ''.''"

text \<open>
  \<^verbatim>\<open>re.search\<close>: the leftmost position where \<^verbatim>\<open>[\d.]+\<close> can start is the first digit or
  dot; the greedy run takes all digits and dots after it, \<^verbatim>\<open>\s*\<close> all whitespace, and the
  optional group never makes the match fail, so nothing backtracks. The result is
  \<^verbatim>\<open>group(1)\<close> and \<^verbatim>\<open>group(2)\<close> (\<open>None\<close> when the group did not take part).
\<close>

definition search_number_unit :: "pat list \<Rightarrow> string \<Rightarrow> (string \<times> string option) option" where
  "search_number_unit alts s =
     (let r = dropWhile (\<lambda>c. \<not> num_char c) s
      in if r = [] then None
         else Some (takeWhile num_char r,
                    match_alts alts (dropWhile is_space (dropWhile num_char r))))"

section \<open>Numbers\<close>

subsection \<open>Decimal digits\<close>

definition digit_val :: "char \<Rightarrow> int" where
  "digit_val c = of_char c - 48"

definition digit_char :: "int \<Rightarrow> char" where
  "digit_char d = ''0123456789'' ! nat d"

text \<open>The value of a string of digits, most significant digit first.\<close>

definition dec_val :: "string \<Rightarrow> int" where
  "dec_val s = foldl (\<lambda>a c. 10 * a + digit_val c) 0 s"

text \<open>\<^verbatim>\<open>str(n)\<close> for an integer \<^verbatim>\<open>n\<close>: first for \<open>n \<ge> 0\<close>, then with the sign.\<close>

function show_nat :: "int \<Rightarrow> string" where
  "show_nat n = (if n < 10 then [digit_char n] else show_nat (n div 10) @ [digit_char (n mod 10)])"
  by pat_completeness auto
termination
  by (relation "measure nat") auto

declare show_nat.simps [simp del]

definition show_int :: "int \<Rightarrow> string" where
  "show_int i = (if i < 0 then CHR ''-'' # show_nat (- i) else show_nat i)"

subsection \<open>Floats\<close>

text \<open>
  A Python \<^verbatim>\<open>float\<close> is an IEEE 754 binary64 value: a finite value, which is a rational
  number, an infinity or a NaN. The sign of a zero is not kept: the evaluator never
  prints a zero it has computed with a sign, and comparisons do not see it. Every
  operation of the evaluator on floats (the conversion of a decimal string, \<^verbatim>\<open>*\<close>, \<^verbatim>\<open>/\<close>,
  \<^verbatim>\<open>-\<close>) is correctly rounded: its result is the exact result rounded to the nearest
  binary64 value, ties to the even significand, and to an infinity from
  \<open>2^1024 - 2^970\<close> on.
\<close>

datatype pyfloat = Fin rat | PInf | NInf | NaN

definition round_half_even :: "rat \<Rightarrow> int" where
  "round_half_even r =
     (let f = \<lfloor>r\<rfloor>; d = r - of_int f
      in if d < 1 / 2 then f else if 1 / 2 < d then f + 1 else if even f then f else f + 1)"

text \<open>\<open>log2_floor n\<close> is the integer \<open>k\<close> with \<open>2^k \<le> n < 2^(k+1)\<close>, for \<open>n \<ge> 1\<close>.\<close>

function log2_floor :: "int \<Rightarrow> int" where
  "log2_floor n = (if n < 2 then 0 else 1 + log2_floor (n div 2))"
  by pat_completeness auto
termination
  by (relation "measure nat") auto

declare log2_floor.simps [simp del]

text \<open>
  \<open>ilog2 q\<close> is the integer \<open>e\<close> with \<open>2^e \<le> q < 2^(e+1)\<close>, for a positive rational \<open>q\<close>:
  from the integer part when \<open>q \<ge> 1\<close>, from the integer part of \<open>1 / q\<close> otherwise.
\<close>

definition ilog2 :: "rat \<Rightarrow> int" where
  "ilog2 q = (if 1 \<le> q then log2_floor \<lfloor>q\<rfloor> else - (1 + log2_floor (\<lceil>1 / q\<rceil> - 1)))"

text \<open>
  Rounding of a positive rational: the spacing of the binary64 values around \<open>q\<close> is
  \<open>2^(e - 52)\<close> for the exponent \<open>e\<close> of \<open>q\<close>, and \<open>2^(-1074)\<close> below \<open>2^(-1022)\<close>.
\<close>

definition ulp_exp :: "rat \<Rightarrow> int" where
  "ulp_exp q = max (ilog2 q) (- 1022) - 52"

definition rnd_pos :: "rat \<Rightarrow> pyfloat" where
  "rnd_pos q =
     (let v = of_int (round_half_even (q / 2 powi ulp_exp q)) * 2 powi ulp_exp q
      in if 2 ^ 1024 \<le> v then PInf else Fin v)"

definition fneg :: "pyfloat \<Rightarrow> pyfloat" where
  "fneg x = (case x of Fin q \<Rightarrow> Fin (- q) | PInf \<Rightarrow> NInf | NInf \<Rightarrow> PInf | NaN \<Rightarrow> NaN)"

definition rnd :: "rat \<Rightarrow> pyfloat" where
  "rnd q = (if q = 0 then Fin 0 else if 0 < q then rnd_pos q else fneg (rnd_pos (- q)))"

text \<open>\<^verbatim>\<open>x - y\<close>\<close>

fun fsub :: "pyfloat \<Rightarrow> pyfloat \<Rightarrow> pyfloat" where
  "fsub (Fin a) (Fin b) = rnd (a - b)"
| "fsub NaN _ = NaN"
| "fsub _ NaN = NaN"
| "fsub PInf PInf = NaN"
| "fsub NInf NInf = NaN"
| "fsub PInf _ = PInf"
| "fsub NInf _ = NInf"
| "fsub (Fin a) PInf = NInf"
| "fsub (Fin a) NInf = PInf"

text \<open>\<^verbatim>\<open>x * c\<close> and \<^verbatim>\<open>x / c\<close> for a positive integer constant \<^verbatim>\<open>c\<close>\<close>

definition fmul_const :: "pyfloat \<Rightarrow> int \<Rightarrow> pyfloat" where
  "fmul_const x c = (case x of Fin a \<Rightarrow> rnd (a * of_int c) | _ \<Rightarrow> x)"

definition fdiv_const :: "pyfloat \<Rightarrow> int \<Rightarrow> pyfloat" where
  "fdiv_const x c = (case x of Fin a \<Rightarrow> rnd (a / of_int c) | _ \<Rightarrow> x)"

text \<open>\<^verbatim>\<open>abs(x)\<close>\<close>

definition fabs :: "pyfloat \<Rightarrow> pyfloat" where
  "fabs x = (case x of Fin a \<Rightarrow> Fin \<bar>a\<bar> | NInf \<Rightarrow> PInf | _ \<Rightarrow> x)"

text \<open>\<^verbatim>\<open>x < y\<close>: false when an operand is a NaN\<close>

fun flt :: "pyfloat \<Rightarrow> pyfloat \<Rightarrow> bool" where
  "flt (Fin a) (Fin b) \<longleftrightarrow> a < b"
| "flt NaN _ \<longleftrightarrow> False"
| "flt _ NaN \<longleftrightarrow> False"
| "flt _ NInf \<longleftrightarrow> False"
| "flt PInf _ \<longleftrightarrow> False"
| "flt NInf _ \<longleftrightarrow> True"
| "flt (Fin a) PInf \<longleftrightarrow> True"

text \<open>The float literal \<^verbatim>\<open>0.001\<close>\<close>

definition tolerance :: pyfloat where
  "tolerance = rnd (1 / 1000)"

text \<open>\<^verbatim>\<open>abs(x - y) < 0.001\<close>\<close>

definition close_to :: "pyfloat \<Rightarrow> pyfloat \<Rightarrow> bool" where
  "close_to x y \<longleftrightarrow> flt (fabs (fsub x y)) tolerance"

subsection \<open>\<^verbatim>\<open>float(s)\<close> and \<^verbatim>\<open>int(s)\<close> for a string\<close>

text \<open>
  \<^verbatim>\<open>float(s)\<close> first removes whitespace at both ends; its whitespace is the ASCII set
  09-0D and 20, and the two whitespace characters above 7F, which CPython turns into
  spaces before parsing. An underscore is allowed only between two digits
  (\<open>strip_underscores\<close> follows CPython's loop over the characters, with the previous
  character as state). What is left must be, as a whole, an optional sign followed by
  \<^verbatim>\<open>inf\<close>, \<^verbatim>\<open>infinity\<close> or \<^verbatim>\<open>nan\<close> in any case, or a decimal number: digits with at most one
  point and at least one digit, and an optional exponent. \<open>None\<close> is \<^verbatim>\<open>ValueError\<close>.
\<close>

definition float_space :: "char \<Rightarrow> bool" where
  "float_space c \<longleftrightarrow> c \<in> set [CHR 0x09, CHR 0x0A, CHR 0x0B, CHR 0x0C, CHR 0x0D, CHR 0x20,
     CHR 0x85, CHR 0xA0]"

definition float_strip :: "string \<Rightarrow> string" where
  "float_strip s = rev (dropWhile float_space (rev (dropWhile float_space s)))"

fun strip_underscores :: "char \<Rightarrow> string \<Rightarrow> string option" where
  "strip_underscores prev [] = (if prev = CHR ''_'' then None else Some [])"
| "strip_underscores prev (c # cs) =
     (if c = CHR ''_'' then (if is_digit prev then strip_underscores c cs else None)
      else if prev = CHR ''_'' \<and> \<not> is_digit c then None
      else map_option ((#) c) (strip_underscores c cs))"

definition split_sign :: "string \<Rightarrow> bool \<times> string" where
  "split_sign s =
     (case s of [] \<Rightarrow> (False, [])
      | c # r \<Rightarrow> if c = CHR ''-'' then (True, r) else if c = CHR ''+'' then (False, r)
                 else (False, s))"

definition parse_inf_nan :: "string \<Rightarrow> pyfloat option" where
  "parse_inf_nan s =
     (let r = lower (snd (split_sign s))
      in if r = ''inf'' \<or> r = ''infinity'' then Some (if fst (split_sign s) then NInf else PInf)
         else if r = ''nan'' then Some NaN
         else None)"

text \<open>
  The exponent part: nothing, or \<^verbatim>\<open>e\<close> or \<^verbatim>\<open>E\<close>, an optional sign and at least one digit,
  up to the end of the string.
\<close>

definition parse_exponent :: "string \<Rightarrow> int option" where
  "parse_exponent s =
     (case s of [] \<Rightarrow> Some 0
      | c # r \<Rightarrow>
          if c = CHR ''e'' \<or> c = CHR ''E'' then
            (let ds = snd (split_sign r)
             in if ds \<noteq> [] \<and> list_all is_digit ds
                then Some (if fst (split_sign r) then - dec_val ds else dec_val ds)
                else None)
          else None)"

text \<open>The digits after the point, and what follows them.\<close>

definition split_fraction :: "string \<Rightarrow> string \<times> string" where
  "split_fraction s =
     (case s of [] \<Rightarrow> ([], [])
      | c # r \<Rightarrow> if c = CHR ''.'' then (takeWhile is_digit r, dropWhile is_digit r)
                 else ([], s))"

definition parse_decimal :: "string \<Rightarrow> rat option" where
  "parse_decimal s =
     (let s1 = snd (split_sign s);
          ip = takeWhile is_digit s1;
          fp = fst (split_fraction (dropWhile is_digit s1))
      in if ip = [] \<and> fp = [] then None
         else (case parse_exponent (snd (split_fraction (dropWhile is_digit s1))) of
                 None \<Rightarrow> None
               | Some e \<Rightarrow>
                   Some ((if fst (split_sign s) then - 1 else 1) * of_int (dec_val (ip @ fp))
                         * 10 powi (e - int (length fp)))))"

definition py_float :: "string \<Rightarrow> pyfloat option" where
  "py_float s =
     (case strip_underscores (CHR 0x00) (float_strip s) of
        None \<Rightarrow> None
      | Some u \<Rightarrow>
          (case parse_inf_nan u of
             Some x \<Rightarrow> Some x
           | None \<Rightarrow> map_option rnd (parse_decimal u)))"

text \<open>
  \<^verbatim>\<open>int(s)\<close>: whitespace at both ends, an optional sign, digits with single underscores
  between them. (CPython also refuses more than 4300 digits, with \<^verbatim>\<open>ValueError\<close>;
  \<^verbatim>\<open>normalize_answer\<close> calls \<^verbatim>\<open>int\<close> only on a string without any digit.)
\<close>

definition py_int :: "string \<Rightarrow> int option" where
  "py_int s =
     (case strip_underscores (CHR 0x00) (snd (split_sign (float_strip s))) of
        None \<Rightarrow> None
      | Some ds \<Rightarrow>
          if ds \<noteq> [] \<and> list_all is_digit ds
          then Some (if fst (split_sign (float_strip s)) then - dec_val ds else dec_val ds)
          else None)"

subsection \<open>Printing a float\<close>

datatype py_error = ValueError | OverflowError

text \<open>\<^verbatim>\<open>int(num)\<close> for a float: truncation; an infinity and a NaN raise.\<close>

definition float_to_int :: "pyfloat \<Rightarrow> py_error + int" where
  "float_to_int x =
     (case x of Fin q \<Rightarrow> Inr (if 0 \<le> q then \<lfloor>q\<rfloor> else \<lceil>q\<rceil>)
      | NaN \<Rightarrow> Inl ValueError
      | _ \<Rightarrow> Inl OverflowError)"

text \<open>
  \<^verbatim>\<open>f"{num:.6f}"\<close> for a finite float: the exact value rounded to six decimals, ties to
  even, printed with all six.
\<close>

definition pad6 :: "string \<Rightarrow> string" where
  "pad6 s = replicate (6 - length s) (CHR ''0'') @ s"

definition format_6f :: "rat \<Rightarrow> string" where
  "format_6f q =
     (let n = round_half_even (\<bar>q\<bar> * 1000000)
      in (if q < 0 then ''-'' else []) @ show_nat (n div 1000000) @ ''.''
         @ pad6 (show_nat (n mod 1000000)))"

text \<open>
  Lines 62 to 66 (and 74 to 77):
  \<^verbatim>\<open>str(int(num)) if num == int(num) else f"{num:.6f}".rstrip('0').rstrip('.')\<close>.
  The comparison of a float with an integer is exact.
\<close>

definition serialize :: "pyfloat \<Rightarrow> py_error + string" where
  "serialize num =
     (case float_to_int num of
        Inl e \<Rightarrow> Inl e
      | Inr i \<Rightarrow>
          (case num of
             Fin q \<Rightarrow> if q = of_int i then Inr (show_int i)
                      else Inr (rstrip_char (CHR ''.'') (rstrip_char (CHR ''0'') (format_6f q)))
           | _ \<Rightarrow> Inl ValueError))"

section \<open>The evaluator\<close>

text \<open>
  The answer type of a problem is one of the strings \<^verbatim>\<open>integer\<close>, \<^verbatim>\<open>float\<close> and \<^verbatim>\<open>string\<close>
  (\<^verbatim>\<open>validate_problems\<close> in \<^verbatim>\<open>dataset_builder.py\<close> refuses any other).
\<close>

datatype answer_type = Integer | Float | String

text \<open>\<^verbatim>\<open>answer_type in ['integer', 'float']\<close>\<close>

definition is_numeric :: "answer_type \<Rightarrow> bool" where
  "is_numeric t \<longleftrightarrow> t = Integer \<or> t = Float"

subsection \<open>Units\<close>

text \<open>
  The conversion chain, on the lower-cased unit. The source has it twice with the same
  branches: in \<^verbatim>\<open>normalize_answer\<close> (lines 41 to 56) and in \<^verbatim>\<open>convert_to_base_unit\<close> (lines
  112 to 132).
\<close>

definition unit_table :: "pyfloat \<Rightarrow> string \<Rightarrow> pyfloat" where
  "unit_table num u =
     (if u = ''km'' then fmul_const num 1000
      else if u = ''cm'' then fdiv_const num 100
      else if u = ''mm'' then fdiv_const num 1000
      else if u = ''g'' then fdiv_const num 1000
      else if u = ''mg'' then fdiv_const num 1000000
      else if u = ''ms'' then fdiv_const num 1000
      else num)"

text \<open>The truth value of an optional string: \<^verbatim>\<open>None\<close> and the empty string are false.\<close>

definition truthy :: "string option \<Rightarrow> bool" where
  "truthy u \<longleftrightarrow> (case u of None \<Rightarrow> False | Some s \<Rightarrow> s \<noteq> [])"

definition convert_to_base_unit :: "pyfloat \<Rightarrow> string option \<Rightarrow> pyfloat" where
  "convert_to_base_unit val u =
     (case u of None \<Rightarrow> val
      | Some s \<Rightarrow> if s = [] then val else unit_table val (lower s))"

subsection \<open>\<^verbatim>\<open>normalize_answer\<close>\<close>

text \<open>
  The body of the two \<^verbatim>\<open>try\<close> blocks after the number is known: \<^verbatim>\<open>ValueError\<close> is caught
  and leaves the answer as it is, \<^verbatim>\<open>OverflowError\<close> is not caught.
\<close>

definition number_text :: "string \<Rightarrow> pyfloat \<Rightarrow> py_error + string" where
  "number_text answer num =
     (case serialize num of
        Inl e \<Rightarrow> (case e of ValueError \<Rightarrow> Inr answer | OverflowError \<Rightarrow> Inl OverflowError)
      | Inr s \<Rightarrow> Inr s)"

definition normalize_answer :: "string \<Rightarrow> answer_type \<Rightarrow> py_error + string" where
  "normalize_answer answer0 t =
     (if answer0 = [] then Inr []
      else
        (let answer = clean_answer answer0
         in map_sum id lower
             (if is_numeric t then
                (case search_number_unit normalize_units answer of
                   Some (num_str, u) \<Rightarrow>
                     (case py_float num_str of
                        None \<Rightarrow> Inr answer
                      | Some num \<Rightarrow>
                          number_text answer
                            (if truthy u then unit_table num (lower (the u)) else num))
                 | None \<Rightarrow>
                     if CHR ''.'' \<in> set answer then
                       (case py_float answer of
                          None \<Rightarrow> Inr answer
                        | Some num \<Rightarrow> number_text answer num)
                     else
                       (case py_int answer of
                          None \<Rightarrow> Inr answer
                        | Some n \<Rightarrow> Inr (show_int n)))
              else Inr answer)))"

subsection \<open>\<^verbatim>\<open>extract_number_and_unit\<close>\<close>

definition extract_number_and_unit :: "string \<Rightarrow> pyfloat option \<times> string option" where
  "extract_number_and_unit answer =
     (let fallback = (case py_float (strip answer) of
                        Some num \<Rightarrow> (Some num, None)
                      | None \<Rightarrow> (None, None))
      in case search_number_unit extract_units answer of
           Some (num_str, u) \<Rightarrow>
             (case py_float num_str of
                Some num \<Rightarrow> (Some num, if truthy u then map_option lower u else None)
              | None \<Rightarrow> fallback)
         | None \<Rightarrow> fallback)"

subsection \<open>\<^verbatim>\<open>answers_match\<close>\<close>

text \<open>\<^verbatim>\<open>x in y\<close> for strings: \<open>x\<close> occurs in \<open>y\<close> as a contiguous piece.\<close>

fun py_in :: "string \<Rightarrow> string \<Rightarrow> bool" where
  "py_in x [] \<longleftrightarrow> x = []"
| "py_in x (c # cs) \<longleftrightarrow> take (length x) (c # cs) = x \<or> py_in x cs"

text \<open>Lines 150 to 172: the comparison of the extracted numbers.\<close>

definition extracted_match ::
  "pyfloat option \<times> string option \<Rightarrow> pyfloat option \<times> string option \<Rightarrow> bool" where
  "extracted_match e1 e2 =
     (case (fst e1, fst e2) of
        (Some num1, Some num2) \<Rightarrow>
          close_to num1 num2 \<or>
          ((truthy (snd e1) \<or> truthy (snd e2)) \<and>
           (close_to (if truthy (snd e1) then convert_to_base_unit num1 (snd e1) else num1)
                     (if truthy (snd e2) then convert_to_base_unit num2 (snd e2) else num2) \<or>
            (if truthy (snd e1) \<and> \<not> truthy (snd e2)
             then close_to (convert_to_base_unit num1 (snd e1)) num2
             else if truthy (snd e2) \<and> \<not> truthy (snd e1)
             then close_to num1 (convert_to_base_unit num2 (snd e2))
             else False)))
      | _ \<Rightarrow> False)"

text \<open>Lines 175 to 181: the comparison of the normalized strings as floats.\<close>

definition fallback_match :: "string \<Rightarrow> string \<Rightarrow> bool" where
  "fallback_match norm1 norm2 =
     (case py_float norm1 of
        None \<Rightarrow> False
      | Some num1 \<Rightarrow> (case py_float norm2 of None \<Rightarrow> False | Some num2 \<Rightarrow> close_to num1 num2))"

definition answers_match :: "string \<Rightarrow> string \<Rightarrow> answer_type \<Rightarrow> py_error + bool" where
  "answers_match answer1 answer2 t =
     (case normalize_answer answer1 t of
        Inl e \<Rightarrow> Inl e
      | Inr norm1 \<Rightarrow>
          (case normalize_answer answer2 t of
             Inl e \<Rightarrow> Inl e
           | Inr norm2 \<Rightarrow>
               Inr (norm1 = norm2 \<or>
                    (is_numeric t \<and>
                     (extracted_match (extract_number_and_unit answer1)
                                      (extract_number_and_unit answer2) \<or>
                      fallback_match norm1 norm2)) \<or>
                    (t = String \<and> (py_in norm1 norm2 \<or> py_in norm2 norm1)))))"

section \<open>The aggregate metrics\<close>

text \<open>
  A Python \<^verbatim>\<open>dict\<close> with string keys is an association list in insertion order, with
  distinct keys: \<^verbatim>\<open>k in d\<close> is \<open>map_of d k \<noteq> None\<close>, \<^verbatim>\<open>d[k]\<close> is the value found, a loop over
  the dict goes through the list, and \<^verbatim>\<open>len(d)\<close> is its length. The records hold the
  fields the evaluator reads; a field read with \<^verbatim>\<open>.get\<close> may be absent.
\<close>

type_synonym 'v dict = "(string \<times> 'v) list"

record problem =
  correct_answer :: string
  answer_type :: answer_type
  category :: string
  problem_text :: string

text \<open>The value under the key \<^verbatim>\<open>judgment\<close> of a result, and the result itself.\<close>

record judgment_data =
  winning_answer :: "string option"

record result =
  judgment_entry :: "judgment_data option"

record solution =
  final_answer :: "string option"

text \<open>\<^verbatim>\<open>result_data.get('judgment', {}).get('winning_answer', '')\<close>\<close>

definition winning_answer_of :: "result \<Rightarrow> string" where
  "winning_answer_of r =
     (case judgment_entry r of None \<Rightarrow> []
      | Some j \<Rightarrow> (case winning_answer j of None \<Rightarrow> [] | Some a \<Rightarrow> a))"

text \<open>\<^verbatim>\<open>solution.get('final_answer', '')\<close>\<close>

definition final_answer_of :: "solution \<Rightarrow> string" where
  "final_answer_of s = (case final_answer s of None \<Rightarrow> [] | Some a \<Rightarrow> a)"

text \<open>\<^verbatim>\<open>a / b\<close> for two integers, \<^verbatim>\<open>b\<close> positive: the quotient, correctly rounded.\<close>

definition ratio :: "nat \<Rightarrow> nat \<Rightarrow> pyfloat" where
  "ratio a b = rnd (of_nat a / of_nat b)"

subsection \<open>\<^verbatim>\<open>calculate_system_metrics\<close>\<close>

record category_metrics =
  cat_total :: nat
  cat_correct :: nat
  cat_accuracy :: pyfloat

record system_metrics =
  total_problems :: nat
  processed_problems :: nat
  correct_final_answers :: nat
  overall_accuracy :: pyfloat
  by_category :: "category_metrics dict"

text \<open>Lines 302 to 311: the entry of the category is created at its first result.\<close>

definition bump_category :: "category_metrics dict \<Rightarrow> string \<Rightarrow> bool \<Rightarrow> category_metrics dict" where
  "bump_category cats c ok =
     map (\<lambda>(k, m). if k = c
                    then (k, m\<lparr>cat_total := cat_total m + 1,
                               cat_correct := cat_correct m + (if ok then 1 else 0)\<rparr>)
                    else (k, m))
       (if map_of cats c = None
        then cats @ [(c, \<lparr>cat_total = 0, cat_correct = 0, cat_accuracy = Fin 0\<rparr>)]
        else cats)"

text \<open>
  The loop of lines 286 to 311 over \<^verbatim>\<open>results.items()\<close>; the state is \<^verbatim>\<open>correct_count\<close> and
  \<^verbatim>\<open>metrics['by_category']\<close>. A result without problem is skipped.
\<close>

fun system_loop ::
  "problem dict \<Rightarrow> result dict \<Rightarrow> nat \<times> category_metrics dict
   \<Rightarrow> py_error + nat \<times> category_metrics dict" where
  "system_loop problems [] st = Inr st"
| "system_loop problems ((problem_id, result_data) # rest) st =
     (case map_of problems problem_id of
        None \<Rightarrow> system_loop problems rest st
      | Some p \<Rightarrow>
          (case answers_match (winning_answer_of result_data) (correct_answer p) (answer_type p) of
             Inl e \<Rightarrow> Inl e
           | Inr ok \<Rightarrow>
               system_loop problems rest
                 (if ok then fst st + 1 else fst st, bump_category (snd st) (category p) ok)))"

definition calculate_system_metrics ::
  "problem dict \<Rightarrow> result dict \<Rightarrow> py_error + system_metrics" where
  "calculate_system_metrics problems results =
     (case system_loop problems results (0, []) of
        Inl e \<Rightarrow> Inl e
      | Inr st \<Rightarrow>
          Inr \<lparr>total_problems = length problems,
               processed_problems = length results,
               correct_final_answers = fst st,
               overall_accuracy =
                 (if length results > 0 then ratio (fst st) (length results) else Fin 0),
               by_category =
                 map (\<lambda>(k, m). (k, if cat_total m > 0
                                    then m\<lparr>cat_accuracy := ratio (cat_correct m) (cat_total m)\<rparr>
                                    else m))
                   (snd st)\<rparr>)"

subsection \<open>\<^verbatim>\<open>calculate_improvement_rate\<close>\<close>

record improvement_metrics =
  total_with_refinement :: nat
  improved :: nat
  worsened :: nat
  unchanged :: nat
  improvement_rate :: pyfloat

text \<open>Lines 345 to 352: the dict of the answers of the solvers.\<close>

definition answers_of :: "solution dict \<Rightarrow> string dict" where
  "answers_of sols = map (\<lambda>(solver_id, s). (solver_id, final_answer_of s)) sols"

text \<open>\<^verbatim>\<open>refined_answers.get(solver_id, original)\<close>\<close>

definition get_or :: "string dict \<Rightarrow> string \<Rightarrow> string \<Rightarrow> string" where
  "get_or d k dflt = (case map_of d k of None \<Rightarrow> dflt | Some v \<Rightarrow> v)"

text \<open>
  The loop of lines 358 to 368 over \<^verbatim>\<open>original_answers\<close>; the state is \<^verbatim>\<open>any_improved\<close> and
  \<^verbatim>\<open>any_worsened\<close>.
\<close>

fun solver_loop ::
  "string \<Rightarrow> answer_type \<Rightarrow> string dict \<Rightarrow> string dict \<Rightarrow> bool \<times> bool
   \<Rightarrow> py_error + bool \<times> bool" where
  "solver_loop ca t refined_answers [] flags = Inr flags"
| "solver_loop ca t refined_answers ((solver_id, original) # rest) flags =
     (case answers_match original ca t of
        Inl e \<Rightarrow> Inl e
      | Inr original_correct \<Rightarrow>
          (case answers_match (get_or refined_answers solver_id original) ca t of
             Inl e \<Rightarrow> Inl e
           | Inr refined_correct \<Rightarrow>
               solver_loop ca t refined_answers rest
                 (if \<not> original_correct \<and> refined_correct then (True, snd flags)
                  else if original_correct \<and> \<not> refined_correct then (fst flags, True)
                  else flags)))"

text \<open>Lines 370 to 376: the problem goes into exactly one bucket.\<close>

definition count_problem :: "improvement_metrics \<Rightarrow> bool \<times> bool \<Rightarrow> improvement_metrics" where
  "count_problem m flags =
     (let m1 = m\<lparr>total_with_refinement := total_with_refinement m + 1\<rparr>
      in if fst flags then m1\<lparr>improved := improved m1 + 1\<rparr>
         else if snd flags then m1\<lparr>worsened := worsened m1 + 1\<rparr>
         else m1\<lparr>unchanged := unchanged m1 + 1\<rparr>)"

text \<open>The loop of lines 336 to 376 over \<^verbatim>\<open>stage1_solutions\<close>.\<close>

fun improvement_loop ::
  "problem dict \<Rightarrow> solution dict dict \<Rightarrow> solution dict dict \<Rightarrow> improvement_metrics
   \<Rightarrow> py_error + improvement_metrics" where
  "improvement_loop problems refined_solutions [] m = Inr m"
| "improvement_loop problems refined_solutions ((problem_id, sols) # rest) m =
     (case map_of problems problem_id of
        None \<Rightarrow> improvement_loop problems refined_solutions rest m
      | Some p \<Rightarrow>
          (case map_of refined_solutions problem_id of
             None \<Rightarrow> improvement_loop problems refined_solutions rest m
           | Some rsols \<Rightarrow>
               (case solver_loop (correct_answer p) (answer_type p) (answers_of rsols)
                       (answers_of sols) (False, False) of
                  Inl e \<Rightarrow> Inl e
                | Inr flags \<Rightarrow>
                    improvement_loop problems refined_solutions rest (count_problem m flags))))"

definition calculate_improvement_rate ::
  "problem dict \<Rightarrow> solution dict dict \<Rightarrow> solution dict dict \<Rightarrow> py_error + improvement_metrics" where
  "calculate_improvement_rate problems stage1_solutions refined_solutions =
     (case improvement_loop problems refined_solutions stage1_solutions
             \<lparr>total_with_refinement = 0, improved = 0, worsened = 0, unchanged = 0,
              improvement_rate = Fin 0\<rparr> of
        Inl e \<Rightarrow> Inl e
      | Inr m \<Rightarrow>
          Inr (if total_with_refinement m > 0
               then m\<lparr>improvement_rate := ratio (improved m) (total_with_refinement m)\<rparr>
               else m))"

subsection \<open>\<^verbatim>\<open>calculate_consensus_rate\<close>\<close>








section \<open>Properties of the float model\<close>

lemma round_half_even_unique:
  assumes "\<bar>r - of_int m\<bar> < 1 / 2"
  shows "round_half_even r = m"
proof -
  from assms have lo: "of_int m - 1 / 2 < r" and hi: "r < of_int m + 1 / 2"
    by linarith+
  show ?thesis
  proof (cases "of_int m \<le> r")
    case True
    then have "\<lfloor>r\<rfloor> = m" using hi by (intro floor_unique) auto
    then show ?thesis using hi by (simp add: round_half_even_def Let_def)
  next
    case False
    then have "\<lfloor>r\<rfloor> = m - 1" using lo by (intro floor_unique) auto
    then show ?thesis using lo False by (simp add: round_half_even_def Let_def)
  qed
qed

lemma round_half_even_of_int [simp]: "round_half_even (of_int m) = m"
  by (rule round_half_even_unique) simp

lemma log2_floor_bounds:
  "1 \<le> n \<Longrightarrow> 0 \<le> log2_floor n \<and> 2 ^ nat (log2_floor n) \<le> n \<and> n < 2 * 2 ^ nat (log2_floor n)"
proof (induction n rule: log2_floor.induct)
  case (1 n)
  show ?case
  proof (cases "n < 2")
    case True
    with "1.prems" have "n = 1" by simp
    then show ?thesis by (simp add: log2_floor.simps)
  next
    case False
    then have d: "1 \<le> n div 2" by simp
    let ?k = "log2_floor (n div 2)"
    from "1.IH" [OF False d]
    have k0: "0 \<le> ?k" and lo: "2 ^ nat ?k \<le> n div 2" and hi: "n div 2 < 2 * 2 ^ nat ?k"
      by auto
    have eq: "log2_floor n = 1 + ?k" using False by (subst log2_floor.simps) simp
    have n: "nat (1 + ?k) = Suc (nat ?k)" using k0 by simp
    have "2 * (n div 2) \<le> n" "n < 2 * (n div 2) + 2" by simp_all
    with lo hi k0 show ?thesis unfolding eq n by simp
  qed
qed

lemma ilog2_bounds:
  assumes "0 < q"
  shows "2 powi ilog2 q \<le> q \<and> q < 2 powi (ilog2 q + 1)"
proof (cases "1 \<le> q")
  case True
  let ?n = "\<lfloor>q\<rfloor>"
  let ?k = "log2_floor ?n"
  have n1: "1 \<le> ?n" using True by (simp add: le_floor_iff)
  from log2_floor_bounds [OF n1]
  have k0: "0 \<le> ?k" and lo: "2 ^ nat ?k \<le> ?n" and hi: "?n < 2 * 2 ^ nat ?k" by auto
  have e: "ilog2 q = ?k" using True by (simp add: ilog2_def)
  have p1: "(2::rat) powi ?k = 2 ^ nat ?k" using k0 by (simp add: power_int_nonneg_exp)
  have p2: "(2::rat) powi (?k + 1) = 2 * 2 ^ nat ?k"
    using k0 by (simp add: power_int_add power_int_nonneg_exp nat_add_distrib)
  have a: "(2::rat) ^ nat ?k \<le> q"
  proof -
    have "(of_int (2 ^ nat ?k) :: rat) \<le> of_int ?n" using lo by (simp only: of_int_le_iff)
    also have "\<dots> \<le> q" by simp
    finally show ?thesis by simp
  qed
  have "?n + 1 \<le> 2 * 2 ^ nat ?k" using hi by simp
  then have "(of_int (?n + 1) :: rat) \<le> of_int (2 * 2 ^ nat ?k)" by (simp only: of_int_le_iff)
  moreover have "q < of_int ?n + 1" by linarith
  ultimately have b: "q < 2 * 2 ^ nat ?k" by simp
  show ?thesis unfolding e p1 p2 using a b by simp
next
  case False
  let ?N = "\<lceil>1 / q\<rceil>"
  let ?j = "log2_floor (?N - 1)"
  have x1: "1 < 1 / q" using assms False by simp
  then have N2: "1 \<le> ?N - 1" by (simp add: less_ceiling_iff)
  from log2_floor_bounds [OF N2]
  have j0: "0 \<le> ?j" and lo: "2 ^ nat ?j \<le> ?N - 1" and hi: "?N - 1 < 2 * 2 ^ nat ?j" by auto
  have e: "ilog2 q = - (1 + ?j)" using False by (simp add: ilog2_def)
  have pj: "(2::rat) powi ?j = 2 ^ nat ?j" using j0 by (simp add: power_int_nonneg_exp)
  have "(2::rat) powi (1 + ?j) = 2 powi 1 * 2 powi ?j" by (rule power_int_add) simp
  then have pj1: "(2::rat) powi (1 + ?j) = 2 * 2 ^ nat ?j" by (simp add: pj)
  have p1: "(2::rat) powi (- (1 + ?j)) = 1 / (2 * 2 ^ nat ?j)"
    by (simp only: power_int_minus_divide pj1)
  have "- (1 + ?j) + 1 = - ?j" by simp
  then have p2: "(2::rat) powi (- (1 + ?j) + 1) = 1 / 2 ^ nat ?j"
    by (simp only: power_int_minus_divide pj)
  have "(of_int (2 ^ nat ?j) :: rat) \<le> of_int (?N - 1)" using lo by (simp only: of_int_le_iff)
  moreover have "of_int ?N - 1 < 1 / q" using ceiling_correct [of "1 / q"] by simp
  ultimately have a: "(2::rat) ^ nat ?j < 1 / q" by simp
  have b: "1 / q \<le> 2 * 2 ^ nat ?j"
  proof -
    have N: "?N \<le> 2 * 2 ^ nat ?j" using hi by simp
    have "1 / q \<le> of_int ?N" by simp
    also have "(of_int ?N :: rat) \<le> of_int (2 * 2 ^ nat ?j)" using N by (simp only: of_int_le_iff)
    also have "(of_int (2 * 2 ^ nat ?j) :: rat) = 2 * 2 ^ nat ?j" by simp
    finally show ?thesis .
  qed
  have pos: "(0::rat) < 2 ^ nat ?j" by simp
  from a assms pos have a': "q < 1 / 2 ^ nat ?j" by (simp add: field_simps)
  from b assms pos have b': "1 / (2 * 2 ^ nat ?j) \<le> q" by (simp add: field_simps)
  show ?thesis unfolding e p1 p2 using a' b' by simp
qed

lemma ilog2_unique:
  assumes "0 < q" "2 powi e \<le> q" "q < 2 powi (e + 1)"
  shows "ilog2 q = e"
proof -
  from ilog2_bounds [OF assms(1)]
  have a: "2 powi ilog2 q \<le> q" and b: "q < 2 powi (ilog2 q + 1)" by auto
  have "\<not> ilog2 q + 1 \<le> e"
  proof
    assume "ilog2 q + 1 \<le> e"
    then have "(2::rat) powi (ilog2 q + 1) \<le> 2 powi e" by (intro power_int_increasing) auto
    with b assms(2) show False by simp
  qed
  moreover have "\<not> e + 1 \<le> ilog2 q"
  proof
    assume "e + 1 \<le> ilog2 q"
    then have "(2::rat) powi (e + 1) \<le> 2 powi ilog2 q" by (intro power_int_increasing) auto
    with a assms(3) show False by simp
  qed
  ultimately show ?thesis by simp
qed

lemma rnd_pos_eq:
  assumes "0 < q" "2 powi e \<le> q" "q < 2 powi (e + 1)" "k = max e (- 1022) - 52"
    and "\<bar>q / 2 powi k - of_int m\<bar> < 1 / 2" "of_int m * 2 powi k < (2::rat) ^ 1024"
  shows "rnd_pos q = Fin (of_int m * 2 powi k)"
proof -
  have "ulp_exp q = k" using ilog2_unique [OF assms(1-3)] assms(4) by (simp add: ulp_exp_def)
  moreover have "round_half_even (q / 2 powi k) = m" using assms(5) by (rule round_half_even_unique)
  ultimately show ?thesis using assms(6) by (simp add: rnd_pos_def Let_def)
qed



lemma fneg_fneg: "fneg (fneg x) = x" by (cases x) (simp_all add: fneg_def)

lemma rnd_minus: "rnd (- q) = fneg (rnd q)"
proof -
  consider "q = 0" | "0 < q" | "q < 0" by linarith
  then show ?thesis
  proof cases
    case 1 then show ?thesis by (simp add: rnd_def fneg_def)
  next
    case 2 then show ?thesis by (simp add: rnd_def)
  next
    case 3 then show ?thesis by (simp add: rnd_def fneg_fneg)
  qed
qed

lemma ilog2_of_int_range:
  assumes "1 \<le> n" "n < 2 ^ 53"
  shows "0 \<le> ilog2 (of_int n) \<and> ilog2 (of_int n) \<le> 52"
proof -
  let ?e = "ilog2 (of_int n)"
  have pos: "(0::rat) < of_int n" using assms by simp
  from ilog2_bounds [OF pos]
  have a: "2 powi ?e \<le> (of_int n :: rat)" and b: "(of_int n :: rat) < 2 powi (?e + 1)" by auto
  have "\<not> ?e + 1 \<le> 0"
  proof
    assume "?e + 1 \<le> 0"
    then have "(2::rat) powi (?e + 1) \<le> 2 powi 0" by (intro power_int_increasing) auto
    with b assms(1) show False by simp
  qed
  moreover have "\<not> 53 \<le> ?e"
  proof
    assume "53 \<le> ?e"
    then have "(2::rat) powi 53 \<le> 2 powi ?e" by (intro power_int_increasing) auto
    with a have "(2::rat) ^ 53 \<le> of_int n" by simp
    moreover have "(of_int n :: rat) < of_int (2 ^ 53)" using assms(2) by (simp only: of_int_less_iff)
    ultimately show False by simp
  qed
  ultimately show ?thesis by simp
qed

lemma rnd_pos_of_int:
  assumes "1 \<le> n" "n < 2 ^ 53"
  shows "rnd_pos (of_int n) = Fin (of_int n)"
proof -
  let ?e = "ilog2 (of_int n)"
  from ilog2_of_int_range [OF assms] have e: "0 \<le> ?e" "?e \<le> 52" by auto
  then have k: "ulp_exp (of_int n) = ?e - 52" by (simp add: ulp_exp_def)
  have p: "(2::rat) powi (?e - 52) = 1 / 2 ^ nat (52 - ?e)"
    using e power_int_minus_divide [of "2::rat" "52 - ?e"] by (simp add: power_int_nonneg_exp)
  have q: "(of_int n :: rat) / 2 powi (?e - 52) = of_int (n * 2 ^ nat (52 - ?e))"
    unfolding p by simp
  have v: "(of_int (n * 2 ^ nat (52 - ?e)) :: rat) * 2 powi (?e - 52) = of_int n"
    unfolding p by simp
  have "(of_int n :: rat) < of_int (2 ^ 53)" using assms(2) by (simp only: of_int_less_iff)
  then have "(of_int n :: rat) < 2 ^ 1024" by simp
  then show ?thesis unfolding rnd_pos_def k Let_def q round_half_even_of_int v by simp
qed

lemma rnd_of_int: "0 \<le> n \<Longrightarrow> n < 2 ^ 53 \<Longrightarrow> rnd (of_int n) = Fin (of_int n)"
  using rnd_pos_of_int [of n] by (cases "n = 0") (simp_all add: rnd_def)

lemma serialize_integral: "serialize (Fin (of_int i)) = Inr (show_int i)"
  by (simp add: serialize_def float_to_int_def)


lemma replicate_numeral_eval: "replicate (numeral k) x = x # replicate (pred_numeral k) x"
  by (simp add: numeral_eq_Suc)

lemmas chr_evals = is_space_def is_digit_def lower_def lower_char_def upper_chars_def
  lower_chars_def num_char_def float_space_def

lemmas str_evals = rstrip_ws_def strip_def rstrip_char_def split_def sub_dollar_def sub_usd_def
  ends_ci_def strip_word_def sub_suffix_def clean_answer_def req_def opt_def normalize_units_def
  extract_units_def search_number_unit_def Let_def is_numeric_def truthy_def

lemmas num_evals = digit_val_def digit_char_def dec_val_def show_nat.simps show_int_def pad6_def
  replicate_numeral_eval

lemmas parse_evals = float_strip_def split_sign_def parse_inf_nan_def parse_exponent_def
  split_fraction_def parse_decimal_def py_float_def py_int_def




lemma pf_1: "py_float ''1'' = Some (Fin 1)"
  using rnd_of_int [of 1] by (simp add: chr_evals str_evals num_evals parse_evals)

lemma pf_5: "py_float ''5'' = Some (Fin 5)"
  using rnd_of_int [of 5] by (simp add: chr_evals str_evals num_evals parse_evals)



lemma ser_1: "serialize (Fin 1) = Inr ''1''"
  using serialize_integral [of 1] by (simp add: num_evals)

lemma ser_5: "serialize (Fin 5) = Inr ''5''"
  using serialize_integral [of 5] by (simp add: num_evals)

lemmas norm_evals = normalize_answer_def number_text_def extract_number_and_unit_def
  chr_evals str_evals









lemma norm_5_ms: "normalize_answer ''5 ms'' Float = Inr ''5''"
  by (simp add: norm_evals pf_5 ser_5 unit_table_def)

lemma norm_5_mg: "normalize_answer ''5 mg'' Float = Inr ''5''"
  by (simp add: norm_evals pf_5 ser_5 unit_table_def)

lemma ext_5_ms: "extract_number_and_unit ''5 ms'' = (Some (Fin 5), Some ''m'')"
  by (simp add: norm_evals pf_5)

lemma ext_5_mg: "extract_number_and_unit ''5 mg'' = (Some (Fin 5), Some ''m'')"
  by (simp add: norm_evals pf_5)



lemma norm_dollars: "normalize_answer ''$$'' Integer = Inr ''$'' \<and> normalize_answer ''$'' Integer = Inr []"
  by (simp add: norm_evals parse_evals)

lemma norm_teacher: "normalize_answer ''the teacher'' String = Inr ''the teacher''"
  by (simp add: norm_evals)

lemma norm_empty: "normalize_answer [] t = Inr []"
  by (simp add: normalize_answer_def)

lemma match_empty: "answers_match [] ''the teacher'' String = Inr True"
  by (simp add: answers_match_def norm_teacher norm_empty)
section \<open>Strings of digits and points\<close>

lemma digit_plain:
  assumes "is_digit c"
  shows "\<not> is_space c" "\<not> float_space c" "c \<noteq> CHR ''_''" "c \<noteq> CHR ''.''" "c \<noteq> CHR ''-''"
    "c \<noteq> CHR ''+''" "c \<noteq> CHR ''$''" "c \<noteq> CHR 0x0A" "c \<noteq> CHR ''e''" "c \<noteq> CHR ''E''"
  using assms by (auto simp: is_digit_def is_space_def float_space_def)

lemma num_char_plain:
  assumes "num_char c"
  shows "\<not> is_space c" "\<not> float_space c" "c \<noteq> CHR ''_''" "c \<noteq> CHR ''-''"
    "c \<noteq> CHR ''+''" "c \<noteq> CHR ''$''" "c \<noteq> CHR 0x0A" "c \<noteq> CHR ''l''" "c \<noteq> CHR ''u''"
    "c \<noteq> CHR ''i''" "c \<noteq> CHR ''n''"
  using assms by (auto simp: num_char_def is_digit_def is_space_def float_space_def)

lemma length_case_tables: "length upper_chars = length lower_chars"
  by (simp add: upper_chars_def lower_chars_def)

lemma lower_char_num: 
  assumes "num_char c"
  shows "lower_char c = c"
proof -
  have "c \<notin> set upper_chars"
    using assms by (auto simp: upper_chars_def num_char_def is_digit_def)
  moreover have "map fst (zip upper_chars lower_chars) = upper_chars"
    by (rule map_fst_zip) (rule length_case_tables)
  then have "fst ` set (zip upper_chars lower_chars) = set upper_chars"
    by (metis set_map)
  ultimately have "map_of (zip upper_chars lower_chars) c = None"
    by (simp add: map_of_eq_None_iff)
  then show ?thesis by (simp add: lower_char_def)
qed

lemma lower_num: "\<forall>c\<in>set s. num_char c \<Longrightarrow> lower s = s"
  by (induction s) (simp_all add: lower_def lower_char_num)

lemma dropWhile_none: "\<forall>x\<in>set xs. \<not> P x \<Longrightarrow> dropWhile P xs = xs"
  by (cases xs) simp_all

lemma strip_num: "\<forall>c\<in>set s. num_char c \<Longrightarrow> strip s = s"
  by (simp add: strip_def rstrip_ws_def dropWhile_none num_char_plain)

lemma float_strip_num: "\<forall>c\<in>set s. num_char c \<Longrightarrow> float_strip s = s"
  by (simp add: float_strip_def dropWhile_none num_char_plain)

lemma strip_underscores_plain:
  "\<forall>c\<in>set s. c \<noteq> CHR ''_'' \<Longrightarrow> prev \<noteq> CHR ''_'' \<Longrightarrow> strip_underscores prev s = Some s"
  by (induction s arbitrary: prev) simp_all

lemma split_acc_no_space:
  "\<forall>c\<in>set s. \<not> is_space c \<Longrightarrow> split_acc s w = (if w @ s = [] then [] else [w @ s])"
  by (induction s arbitrary: w) simp_all

lemma word_has_letter:
  "w \<in> set [''dollars'', ''dollar'', ''usd'', ''units'', ''unit''] \<Longrightarrow>
   CHR ''l'' \<in> set w \<or> CHR ''u'' \<in> set w"
  by auto

lemma strip_word_num:
  assumes "\<forall>c\<in>set s. num_char c"
  shows "strip_word s = s"
proof -
  have "\<not> ends_ci s w" if w: "w \<in> set [''dollars'', ''dollar'', ''usd'', ''units'', ''unit'']" for w
  proof
    assume e: "ends_ci s w"
    let ?d = "drop (length s - length w) s"
    have d: "\<forall>c\<in>set ?d. num_char c" using assms by (meson in_set_dropD)
    from e have "lower ?d = w" by (simp add: ends_ci_def)
    then have "?d = w" using lower_num [OF d] by simp
    then have "\<forall>c\<in>set w. num_char c" using d by simp
    with word_has_letter [OF w] show False using num_char_plain(8,9) by blast
  qed
  then have "find (ends_ci s) [''dollars'', ''dollar'', ''usd'', ''units'', ''unit''] = None"
    unfolding find_None_iff by blast
  then show ?thesis by (simp add: strip_word_def)
qed

lemma clean_num:
  assumes "s \<noteq> []" "\<forall>c\<in>set s. num_char c"
  shows "clean_answer s = s"
proof -
  have 1: "strip s = s" using assms(2) by (rule strip_num)
  have 2: "sub_dollar s = s" using assms by (cases s) (auto simp: sub_dollar_def num_char_plain)
  have t: "\<forall>c\<in>set (take 3 s). num_char c" using assms(2) by (meson in_set_takeD)
  have "lower (take 3 s) \<noteq> ''usd''"
  proof
    assume "lower (take 3 s) = ''usd''"
    then have "take 3 s = ''usd''" using lower_num [OF t] by simp
    then have "CHR ''u'' \<in> set (take 3 s)" by simp
    with t show False using num_char_plain(9) by blast
  qed
  then have 3: "sub_usd s = s" by (simp add: sub_usd_def)
  have "last s \<in> set s" using assms(1) by simp
  then have "last s \<noteq> CHR 0x0A" using assms(2) num_char_plain(7) by blast
  then have 4: "sub_suffix s = s" using strip_word_num [OF assms(2)] by (simp add: sub_suffix_def)
  have 5: "split s = [s]"
    using assms split_acc_no_space [of s "[]"] by (simp add: split_def num_char_plain)
  show ?thesis unfolding clean_answer_def 1 2 3 4 5 by simp
qed

lemma match_alts_empty: "match_alts extract_units [] = None" "match_alts normalize_units [] = None"
  by (simp_all add: extract_units_def normalize_units_def req_def opt_def)

lemma search_num:
  assumes "s \<noteq> []" "\<forall>c\<in>set s. num_char c"
  shows "search_number_unit normalize_units s = Some (s, None)"
    and "search_number_unit extract_units s = Some (s, None)"
proof -
  have a: "dropWhile (\<lambda>c. \<not> num_char c) s = s" using assms(2) by (simp add: dropWhile_none)
  have b: "takeWhile num_char s = s" using assms(2) by (simp add: takeWhile_eq_all_conv)
  have c: "dropWhile num_char s = []" using assms(2) by (simp add: dropWhile_eq_Nil_conv)
  show "search_number_unit normalize_units s = Some (s, None)"
    and "search_number_unit extract_units s = Some (s, None)"
    using assms(1) by (simp_all add: search_number_unit_def a b c match_alts_empty)
qed

lemma digits_num: "list_all is_digit s \<Longrightarrow> \<forall>c\<in>set s. num_char c"
  by (simp add: list_all_iff num_char_def)

lemma parse_inf_nan_num:
  assumes "s \<noteq> []" "\<forall>c\<in>set s. num_char c"
  shows "parse_inf_nan s = None"
proof -
  obtain c r where s: "s = c # r" using assms(1) by (cases s) auto
  have c: "num_char c" using assms(2) s by simp
  have sg: "split_sign s = (False, s)" using c by (simp add: s split_sign_def num_char_plain)
  have l: "lower s = s" using assms(2) by (rule lower_num)
  have "s \<noteq> ''inf''" "s \<noteq> ''infinity''" "s \<noteq> ''nan''"
    using c num_char_plain(10,11) by (auto simp: s)
  then show ?thesis by (simp add: parse_inf_nan_def sg l)
qed

lemma dec_val_snoc: "dec_val (s @ [c]) = 10 * dec_val s + digit_val c"
  by (simp add: dec_val_def)

lemma dec_val_append: "dec_val (a @ b) = dec_val a * 10 ^ length b + dec_val b"
proof (induction b rule: rev_induct)
  case Nil
  then show ?case by (simp add: dec_val_def)
next
  case (snoc c b)
  have "dec_val (a @ b @ [c]) = 10 * dec_val (a @ b) + digit_val c"
    using dec_val_snoc [of "a @ b" c] by simp
  then show ?case by (simp add: snoc.IH dec_val_snoc algebra_simps)
qed

lemma parse_decimal_digits:
  assumes "s \<noteq> []" "list_all is_digit s"
  shows "parse_decimal s = Some (of_int (dec_val s))"
proof -
  obtain c r where s: "s = c # r" using assms(1) by (cases s) auto
  have c: "is_digit c" using assms(2) s by simp
  have sg: "split_sign s = (False, s)" using c by (simp add: s split_sign_def digit_plain)
  have a: "takeWhile is_digit s = s" using assms(2) by (simp add: takeWhile_eq_all_conv list_all_iff)
  have b: "dropWhile is_digit s = []" using assms(2) by (simp add: dropWhile_eq_Nil_conv list_all_iff)
  show ?thesis using assms(1)
    by (simp add: parse_decimal_def sg a b split_fraction_def parse_exponent_def)
qed

lemma py_float_digits:
  assumes "s \<noteq> []" "list_all is_digit s"
  shows "py_float s = Some (rnd (of_int (dec_val s)))"
proof -
  have n: "\<forall>c\<in>set s. num_char c" using assms(2) by (rule digits_num)
  have u: "strip_underscores (CHR 0x00) s = Some s"
    using n by (intro strip_underscores_plain) (auto simp: num_char_plain)
  show ?thesis
    by (simp add: py_float_def float_strip_num [OF n] u parse_inf_nan_num [OF assms(1) n]
        parse_decimal_digits [OF assms])
qed

section \<open>Overflow\<close>

lemma round_half_even_floor: "\<lfloor>r\<rfloor> \<le> round_half_even r \<and> round_half_even r \<le> \<lfloor>r\<rfloor> + 1"
  by (simp add: round_half_even_def Let_def)

lemma rnd_pos_overflow:
  assumes "2 ^ 1024 \<le> q"
  shows "rnd_pos q = PInf"
proof -
  let ?e = "ilog2 q"
  have "(0::rat) < 2 ^ 1024" by simp
  then have pos: "0 < q" using assms by linarith
  from ilog2_bounds [OF pos] have lo: "2 powi ?e \<le> q" and hi: "q < 2 powi (?e + 1)" by auto
  have e: "1024 \<le> ?e"
  proof (rule ccontr)
    assume "\<not> 1024 \<le> ?e"
    then have "?e + 1 \<le> 1024" by simp
    then have "(2::rat) powi (?e + 1) \<le> 2 powi 1024" by (intro power_int_increasing) auto
    with hi assms show False by simp
  qed
  then have k: "ulp_exp q = ?e - 52" by (simp add: ulp_exp_def)
  let ?u = "(2::rat) powi (?e - 52)"
  have u: "0 < ?u" by simp
  have pe: "(2::rat) powi ?e = 2 ^ 52 * ?u"
    using power_int_add [of "2::rat" 52 "?e - 52"] by simp
  have "(2::rat) ^ 52 \<le> q / ?u" using lo u unfolding pe by (simp add: field_simps)
  then have "(of_int (2 ^ 52) :: rat) \<le> q / ?u" by simp
  then have "2 ^ 52 \<le> \<lfloor>q / ?u\<rfloor>" by (simp only: le_floor_iff)
  then have m: "2 ^ 52 \<le> round_half_even (q / ?u)" using round_half_even_floor [of "q / ?u"] by linarith
  have mm: "(of_int (2 ^ 52) :: rat) \<le> of_int (round_half_even (q / ?u))"
    using m by (simp only: of_int_le_iff)
  have u0: "0 \<le> ?u" using u by simp
  have "(2::rat) ^ 1024 \<le> 2 powi ?e" using e power_int_increasing [of 1024 ?e "2::rat"] by simp
  also have "\<dots> = of_int (2 ^ 52) * ?u" unfolding pe by simp
  also have "\<dots> \<le> of_int (round_half_even (q / ?u)) * ?u"
    by (rule mult_right_mono [OF mm u0])
  finally show ?thesis by (simp add: rnd_pos_def k Let_def)
qed

lemma dec_val_one_zeros: "dec_val (CHR ''1'' # replicate n (CHR ''0'')) = 10 ^ n"
proof (induction n)
  case 0
  then show ?case by (simp add: dec_val_def digit_val_def)
next
  case (Suc n)
  have "CHR ''1'' # replicate (Suc n) (CHR ''0'') = (CHR ''1'' # replicate n (CHR ''0'')) @ [CHR ''0'']"
    by (simp add: replicate_append_same)
  then show ?case using Suc.IH by (simp only: dec_val_snoc) (simp add: digit_val_def)
qed

lemma one_zeros_digits: "list_all is_digit (CHR ''1'' # replicate n (CHR ''0''))"
  by (simp add: list_all_iff is_digit_def)

section \<open>The matcher\<close>

lemma fabs_fneg: "fabs (fneg x) = fabs x"
  by (cases x) (simp_all add: fneg_def fabs_def)

lemma fabs_fsub_commute: "fabs (fsub x y) = fabs (fsub y x)"
proof (cases x; cases y)
  fix a b assume "x = Fin a" "y = Fin b"
  moreover have "rnd (b - a) = fneg (rnd (a - b))" using rnd_minus [of "a - b"] by simp
  ultimately show ?thesis by (simp add: fabs_fneg)
qed (simp_all add: fabs_def)

lemma close_to_commute: "close_to x y = close_to y x"
  by (simp add: close_to_def fabs_fsub_commute)

lemma extracted_match_commute: "extracted_match e1 e2 = extracted_match e2 e1"
  unfolding extracted_match_def
  by (cases "fst e1"; cases "fst e2") (auto simp: close_to_commute)

lemma fallback_match_commute: "fallback_match a b = fallback_match b a"
  unfolding fallback_match_def
  by (cases "py_float a"; cases "py_float b") (auto simp: close_to_commute)

lemma number_text_error: "number_text a num = Inl e \<Longrightarrow> e = OverflowError"
  by (auto simp: number_text_def split: sum.splits py_error.splits)

lemma normalize_answer_error: "normalize_answer a t = Inl e \<Longrightarrow> e = OverflowError"
  unfolding normalize_answer_def Let_def
  by (auto split: if_splits option.splits prod.splits sum.splits dest: number_text_error
      simp: map_sum_def)

text \<open>
  C1. The matcher is symmetric: for all answers \<open>a\<close> and \<open>b\<close> and every answer type,
  \<^verbatim>\<open>answers_match(a, b, t)\<close> and \<^verbatim>\<open>answers_match(b, a, t)\<close> are the same, as a result and
  also when a normalization raises (the only exception that escapes is \<^verbatim>\<open>OverflowError\<close>).
\<close>

theorem answers_match_symmetric: "answers_match a b t = answers_match b a t"
proof (cases "normalize_answer a t"; cases "normalize_answer b t")
  fix e1 e2 assume "normalize_answer a t = Inl e1" "normalize_answer b t = Inl e2"
  then show ?thesis using normalize_answer_error by (simp add: answers_match_def) blast
next
  fix n1 n2 assume "normalize_answer a t = Inr n1" "normalize_answer b t = Inr n2"
  then show ?thesis
    using extracted_match_commute [of "extract_number_and_unit a" "extract_number_and_unit b"]
      fallback_match_commute [of n1 n2]
    by (auto simp: answers_match_def)
qed (simp_all add: answers_match_def)

text \<open>
  C2. The claim is that a recognized unit after the number is extracted as it is written,
  so that \<^verbatim>\<open>5 ms\<close> has the unit \<^verbatim>\<open>ms\<close> and normalizes to \<^verbatim>\<open>0.005\<close>, and \<^verbatim>\<open>5 mg\<close> has the unit
  \<^verbatim>\<open>mg\<close> and normalizes to \<^verbatim>\<open>0.000005\<close>. In the pattern the alternative \<^verbatim>\<open>m\<close> stands before
  \<^verbatim>\<open>mg\<close> and \<^verbatim>\<open>ms\<close>, so the code takes both for metres: the unit is \<^verbatim>\<open>m\<close> and the value
  stays 5. The branches of the conversion chain for \<^verbatim>\<open>mg\<close> and \<^verbatim>\<open>ms\<close> are never reached.
\<close>

theorem millisecond_and_milligram_read_as_metre:
  "extract_number_and_unit ''5 ms'' = (Some (Fin 5), Some ''m'') \<and>
   normalize_answer ''5 ms'' Float = Inr ''5'' \<and>
   extract_number_and_unit ''5 mg'' = (Some (Fin 5), Some ''m'') \<and>
   normalize_answer ''5 mg'' Float = Inr ''5''"
  by (simp add: ext_5_ms norm_5_ms ext_5_mg norm_5_mg)

text \<open>
  C3. The claim is that the empty string matches an answer only when that answer
  normalizes to the empty string. For the type \<^verbatim>\<open>string\<close> the code tests
  \<^verbatim>\<open>norm1 in norm2\<close>, and the empty string is contained in every string: the empty
  answer matches \<^verbatim>\<open>the teacher\<close>, whose normal form is not empty.
\<close>

theorem empty_answer_matches_any_string:
  "answers_match [] ''the teacher'' String = Inr True \<and>
   normalize_answer ''the teacher'' String = Inr ''the teacher''"
  by (simp add: match_empty norm_teacher)

section \<open>The tolerance\<close>


lemma ext_5: "extract_number_and_unit ''5'' = (Some (Fin 5), None)"
  by (simp add: norm_evals pf_5)

lemma ext_minus_5: "extract_number_and_unit ''-5'' = (Some (Fin 5), None)"
  by (simp add: norm_evals pf_5)








section \<open>The aggregate metrics\<close>

lemma rnd_half: "rnd (1 / 2) = Fin (1 / 2)"
proof -
  have "rnd_pos (1 / 2) = Fin (of_int 4503599627370496 * 2 powi (- 53))"
    by (rule rnd_pos_eq [where e = "- 1"]) simp_all
  then show ?thesis by (simp add: rnd_def)
qed

lemma norm_1_int: "normalize_answer ''1'' Integer = Inr ''1''"
  by (simp add: norm_evals pf_1 ser_1)

lemma match_1_1: "answers_match ''1'' ''1'' Integer = Inr True"
  by (simp add: answers_match_def norm_1_int)

text \<open>
  C8. The claim is that the overall accuracy divides by the number of results whose
  problem exists. The loop skips a result without problem, but line 315 divides by
  \<^verbatim>\<open>len(results)\<close>: with one problem, answered correctly, and a second result whose problem
  is unknown, the overall accuracy is 0.5, while the accuracy of the category, which
  counts the evaluated results only, is 1.
\<close>

theorem overall_accuracy_counts_unknown_results:
  "calculate_system_metrics
     [(''p1'', \<lparr>correct_answer = ''1'', answer_type = Integer, category = ''math'',
               problem_text = ''one''\<rparr>)]
     [(''p1'', \<lparr>judgment_entry = Some \<lparr>winning_answer = Some ''1''\<rparr>\<rparr>),
      (''p2'', \<lparr>judgment_entry = Some \<lparr>winning_answer = Some ''1''\<rparr>\<rparr>)] =
   Inr \<lparr>total_problems = 1, processed_problems = 2, correct_final_answers = 1,
        overall_accuracy = Fin (1 / 2),
        by_category = [(''math'', \<lparr>cat_total = 1, cat_correct = 1, cat_accuracy = Fin 1\<rparr>)]\<rparr>"
  using rnd_of_int [of 1]
  by (simp add: calculate_system_metrics_def winning_answer_of_def match_1_1
      bump_category_def ratio_def rnd_half)





text \<open>
  C7. The claim is that normalization and extraction return on every string and never
  raise. \<^verbatim>\<open>extract_number_and_unit\<close> does: it only calls \<^verbatim>\<open>float\<close>, under \<^verbatim>\<open>try\<close>. In
  \<^verbatim>\<open>normalize_answer\<close> the \<^verbatim>\<open>try\<close> blocks catch \<^verbatim>\<open>ValueError\<close> only: a run of digits from
  \<open>2^1024\<close> on (here a one and 309 zeros) is read as the float infinity, and
  \<^verbatim>\<open>int(num)\<close> raises \<^verbatim>\<open>OverflowError\<close>, which leaves the function.
\<close>

theorem huge_number_raises:
  "normalize_answer (CHR ''1'' # replicate 309 (CHR ''0'')) Integer = Inl OverflowError"
proof -
  let ?s = "CHR ''1'' # replicate 309 (CHR ''0'')"
  have d: "list_all is_digit ?s" by (rule one_zeros_digits)
  have n: "\<forall>c\<in>set ?s. num_char c" using d by (rule digits_num)
  have ne: "?s \<noteq> []" by simp
  have "(2::rat) ^ 1024 \<le> of_int (10 ^ 309)" by simp
  then have "rnd (of_int (dec_val ?s)) = PInf"
    unfolding dec_val_one_zeros by (simp add: rnd_def rnd_pos_overflow)
  then have f: "py_float ?s = Some PInf" using py_float_digits [OF ne d] by simp
  have "number_text ?s PInf = Inl OverflowError"
    by (simp add: number_text_def serialize_def float_to_int_def)
  then show ?thesis
    using ne by (simp add: normalize_answer_def clean_num [OF ne n] search_num(1) [OF ne n] f
        is_numeric_def truthy_def Let_def del: replicate.simps)
qed

section \<open>Answers without a number\<close>















section \<open>Consensus\<close>











end
